theory Spec2Isabelle
  imports Complex_Main
begin

section \<open>Data model\<close>

text \<open>
  Pixel values are modelled as real numbers: arithmetic is exact, and the non-finite
  values that IEEE arithmetic produces at \<open>white = dark\<close> are outside the model
  (statements about quotients assume \<open>white \<noteq> dark\<close> at the pixel concerned).

  A frame is a 2-D array \<open>[rows, columns]\<close>, a volume a 3-D array
  \<open>[projections, rows, columns]\<close>, both as nested lists.
\<close>

type_synonym frame = "real list list"
type_synonym volume = "frame list"

datatype error = IndexError | ValueError | ExternalError

section \<open>normalize (algorithms/preprocess/normalize.py)\<close>

text \<open>
  Elementwise arithmetic of two 2-D arrays. The model covers calibration frames of
  exactly the shape of one projection (the documented input); \<open>same_shape\<close> is the
  check, and other shapes, which numpy would broadcast or reject, give \<open>ValueError\<close>.
\<close>

definition same_shape :: "frame \<Rightarrow> frame \<Rightarrow> bool" where
  "same_shape a b \<longleftrightarrow> map length a = map length b"

definition subtract :: "frame \<Rightarrow> frame \<Rightarrow> frame" where
  "subtract a b = map2 (map2 (\<lambda>x y. x - y)) a b"

definition divide_frames :: "frame \<Rightarrow> frame \<Rightarrow> frame" where
  "divide_frames a b = map2 (map2 (\<lambda>x y. x / y)) a b"

text \<open>
  The loop \<open>for m in ind: data[m, :, :] = np.divide(data[m, :, :] - data_dark,
  data_white - data_dark)\<close>, on the 3-D view of the shared array. An index beyond the
  first dimension raises. Indices are natural numbers, as a partition of
  \<open>[0, num_projections)\<close> has them; the negative indices that numpy counts from the
  end are outside the model.
\<close>

fun normalize_loop :: "nat list \<Rightarrow> frame \<Rightarrow> frame \<Rightarrow> volume \<Rightarrow> error + volume" where
  "normalize_loop [] data_white data_dark data = Inr data"
| "normalize_loop (m # ind) data_white data_dark data =
     (if \<not> m < length data then Inl IndexError
      else if \<not> (same_shape (data ! m) data_dark \<and> same_shape data_white data_dark)
        then Inl ValueError
      else normalize_loop ind data_white data_dark
             (data[m := divide_frames (subtract (data ! m) data_dark)
                                      (subtract data_white data_dark)]))"

text \<open>\<open>data[data > cutoff] = cutoff\<close>, on the whole 3-D view.\<close>

definition clamp :: "real \<Rightarrow> volume \<Rightarrow> volume" where
  "clamp cutoff data = map (map (map (\<lambda>v. if v > cutoff then cutoff else v))) data"

text \<open>
  \<open>normalize(args)\<close> with \<open>args = (ind, dshape, (data_white, data_dark, cutoff))\<close>.
  The last argument is the state: the shared array as the 3-D view
  \<open>mp.tonumpyarray(mp.shared_arr, dshape)\<close> that the function works on, so that
  \<open>dshape\<close> is the shape of that view and plays no further part; the result is the
  view after the call.
\<close>

type_synonym normalize_inputs = "frame \<times> frame \<times> real option"

definition normalize ::
  "nat list \<times> (nat \<times> nat \<times> nat) \<times> normalize_inputs \<Rightarrow> volume \<Rightarrow> error + volume" where
  "normalize args data =
     (case args of (ind, dshape, data_white, data_dark, cutoff) \<Rightarrow>
        (case normalize_loop ind data_white data_dark data of
           Inl e \<Rightarrow> Inl e
         | Inr data' \<Rightarrow>
             (case cutoff of
                None \<Rightarrow> Inr data'
              | Some c \<Rightarrow> Inr (clamp c data'))))"

text \<open>The quotient frame the loop stores for one projection.\<close>

definition normalized :: "frame \<Rightarrow> frame \<Rightarrow> frame \<Rightarrow> frame" where
  "normalized data_white data_dark p =
     divide_frames (subtract p data_dark) (subtract data_white data_dark)"

text \<open>
  Running \<open>normalize\<close> once per partition, one call after another on the shared
  array (the sequential schedule of the workers); an error ends the run.
\<close>

fun normalize_each ::
  "nat list list \<Rightarrow> (nat \<times> nat \<times> nat) \<Rightarrow> normalize_inputs \<Rightarrow> volume \<Rightarrow> error + volume" where
  "normalize_each [] dshape inputs data = Inr data"
| "normalize_each (ind # parts) dshape inputs data =
     (case normalize (ind, dshape, inputs) data of
        Inl e \<Rightarrow> Inl e
      | Inr data' \<Rightarrow> normalize_each parts dshape inputs data')"

section \<open>optimize_center (algorithms/recon/optimize_center.py)\<close>

text \<open>
  \<open>recon.data_recon\<close> is a 3-D array \<open>[slices, rows, columns]\<close>; the code masks
  its slice 0 and takes extrema, the smoothing and the size over all of it.
\<close>

type_synonym recon_data = "frame list"

text \<open>
  The result object of \<open>scipy.optimize.minimize\<close>: the final point, its score and the
  flag that tells convergence from an exhausted budget.
\<close>

record optimize_result =
  res_x :: real
  res_fun :: real
  res_success :: bool

text \<open>
  The minimizer is a black box that proposes a candidate, receives its score and either
  proposes again or finishes; every run is finite.
\<close>

datatype minimizer = Finish optimize_result | Propose real "real \<Rightarrow> minimizer"

text \<open>
  The collaborators outside the two source files, as parameters:
  \<^item> \<open>shape2 data\<close> is \<open>data.shape[2]\<close>;
  \<^item> \<open>reconstruct data theta center slice_no\<close> is the value of \<open>recon.data_recon\<close>
    after \<open>recon.reconstruct(data, theta=theta, center=center, slice_no=slice_no)\<close>,
    or the error it raises;
  \<^item> \<open>gaussian_filter a sigma\<close> is \<open>ndimage.filters.gaussian_filter(a, sigma=sigma)\<close>;
  \<^item> \<open>histogram a bins range\<close> is the bucket counts of
    \<open>np.histogram(a, bins=bins, range=range)\<close>, or the error it raises;
  \<^item> \<open>minimize x0 tol\<close> is \<open>scipy.optimize.minimize(fun, x0, args, method='Nelder-Mead',
    tol=tol)\<close> as a strategy that is yet to be given \<open>fun\<close>;
  \<^item> \<open>float32 c\<close> is \<open>np.array(c, dtype='float32')\<close>.
\<close>

record ('d, 't, 's) externals =
  shape2 :: "'d \<Rightarrow> nat"
  reconstruct :: "'d \<Rightarrow> 't \<Rightarrow> real \<Rightarrow> 's \<Rightarrow> error + recon_data"
  gaussian_filter :: "recon_data \<Rightarrow> real \<Rightarrow> recon_data"
  histogram :: "recon_data \<Rightarrow> nat \<Rightarrow> real \<times> real \<Rightarrow> error + nat list"
  minimize :: "real \<Rightarrow> real \<Rightarrow> minimizer"
  float32 :: "real \<Rightarrow> real"

text \<open>\<open>np.ogrid[-rad:rad]\<close>: the coordinates \<open>-rad, \<dots>, rad - 1\<close>.\<close>

definition ogrid :: "nat \<Rightarrow> int list" where
  "ogrid rad = map (\<lambda>i. int i - int rad) [0..<2 * rad]"

text \<open>
  \<open>rad = data.shape[2]/2\<close> (integer division) and
  \<open>msk = x*x + y*y > ratio*ratio*rad*rad\<close>, rows indexed by \<open>y\<close>, columns by \<open>x\<close>.
\<close>

definition circular_mask :: "nat \<Rightarrow> real \<Rightarrow> bool list list" where
  "circular_mask n ratio =
     (let rad = n div 2 in
        map (\<lambda>y. map (\<lambda>x. of_int (x * x + y * y) > ratio * ratio * real rad * real rad)
                   (ogrid rad))
            (ogrid rad))"

text \<open>
  \<open>recon.data_recon[0, msk] = 0\<close>. A boolean index of another shape than the slice
  raises \<open>IndexError\<close> (as numpy does from release 1.13 on), and so does slice 0 of
  an array without slices. The mask has the shape \<open>2 rad \<times> 2 rad\<close>, so a slice of
  odd edge \<open>data.shape[2]\<close> does not fit it.
\<close>

definition apply_mask :: "nat \<Rightarrow> real \<Rightarrow> recon_data \<Rightarrow> error + recon_data" where
  "apply_mask n ratio data_recon =
     (let msk = circular_mask n ratio in
        case data_recon of
          [] \<Rightarrow> Inl IndexError
        | img # rest \<Rightarrow>
            if map length msk = map length img
            then Inr (map2 (map2 (\<lambda>b v. if b then 0 else v)) msk img # rest)
            else Inl IndexError)"

text \<open>\<open>np.min\<close> and \<open>np.max\<close> of a non-empty array, flattened.\<close>

definition amin :: "real list \<Rightarrow> real" where
  "amin xs = fold min (tl xs) (hd xs)"

definition amax :: "real list \<Rightarrow> real" where
  "amax xs = fold max (tl xs) (hd xs)"

definition flatten :: "recon_data \<Rightarrow> real list" where
  "flatten data_recon = concat (concat data_recon)"

text \<open>
  Lines 92 to 102: the histogram boundaries from the extrema of \<open>recon.data_recon\<close>.
  The extrema of an empty array raise \<open>ValueError\<close>.
\<close>

definition hist_limits :: "recon_data \<Rightarrow> error + real \<times> real" where
  "hist_limits data_recon =
     (if flatten data_recon = [] then Inl ValueError
      else
        let hist_min = amin (flatten data_recon);
            hist_min = (if hist_min < 0 then 2 * hist_min
                        else if hist_min \<ge> 0 then 0.5 * hist_min
                        else hist_min);
            hist_max = amax (flatten data_recon);
            hist_max = (if hist_max < 0 then 0.5 * hist_max
                        else if hist_max \<ge> 0 then 2 * hist_max
                        else hist_max)
        in Inr (hist_min, hist_max))"

text \<open>Lines 81 to 89: the initial reconstruction, masked when \<open>mask is True\<close>.\<close>

definition init_recon ::
  "('d, 't, 's) externals \<Rightarrow> 'd \<Rightarrow> 't \<Rightarrow> 's \<Rightarrow> real \<Rightarrow> bool \<Rightarrow> real \<Rightarrow> error + recon_data" where
  "init_recon ext data theta slice_no center_init mask' ratio =
     (case reconstruct ext data theta center_init slice_no of
        Inl e \<Rightarrow> Inl e
      | Inr data_recon \<Rightarrow>
          if mask' then apply_mask (shape2 ext data) ratio data_recon
          else Inr data_recon)"

text \<open>Lines 122 to 130: the reconstruction of one evaluation, masked likewise.\<close>

definition cost_recon ::
  "('d, 't, 's) externals \<Rightarrow> real \<Rightarrow> 'd \<Rightarrow> 't \<Rightarrow> 's \<Rightarrow> bool \<Rightarrow> real \<Rightarrow> error + recon_data" where
  "cost_recon ext center data theta slice_no mask' ratio =
     (let center = float32 ext center in
        case reconstruct ext data theta center slice_no of
          Inl e \<Rightarrow> Inl e
        | Inr data_recon \<Rightarrow>
            if mask' then apply_mask (shape2 ext data) ratio data_recon
            else Inr data_recon)"

text \<open>
  Lines 132 to 135: \<open>histr.astype('float32') / recon.data_recon.size + 1e-12\<close> and
  \<open>-np.dot(histr, np.log2(histr))\<close>.
\<close>

definition entropy_score :: "nat list \<Rightarrow> nat \<Rightarrow> real" where
  "entropy_score counts n =
     (let histr = map (\<lambda>c. real c / real n + 1 / 10 ^ 12) counts
      in - (\<Sum>p\<leftarrow>histr. p * log 2 p))"

definition costFunc ::
  "('d, 't, 's) externals \<Rightarrow> real \<Rightarrow> 'd \<Rightarrow> 't \<Rightarrow> 's \<Rightarrow> real \<Rightarrow> real \<Rightarrow> bool \<Rightarrow> real \<Rightarrow> error + real" where
  "costFunc ext center data theta slice_no hist_min hist_max mask' ratio =
     (case cost_recon ext center data theta slice_no mask' ratio of
        Inl e \<Rightarrow> Inl e
      | Inr data_recon \<Rightarrow>
          (case histogram ext (gaussian_filter ext data_recon 2) 64 (hist_min, hist_max) of
             Inl e \<Rightarrow> Inl e
           | Inr histr \<Rightarrow> Inr (entropy_score histr (length (flatten data_recon)))))"

text \<open>
  The extra arguments \<open>args = (data, recon, theta, slice_no, hist_min, hist_max, mask,
  ratio)\<close> that the minimizer hands to every call of the objective, and the record of one
  such call: the candidate, the extra arguments it came with, the score returned.
\<close>

record ('d, 't, 's) cost_args =
  arg_data :: 'd
  arg_theta :: 't
  arg_slice_no :: 's
  arg_hist_min :: real
  arg_hist_max :: real
  arg_mask :: bool
  arg_ratio :: real

record ('d, 't, 's) call =
  call_center :: real
  call_args :: "('d, 't, 's) cost_args"
  call_score :: real

text \<open>
  The minimizer run against an objective \<open>fun\<close> and fixed extra arguments: it calls
  \<open>fun(x, *args)\<close> for every candidate; an error raised by the objective ends the run.
  The result comes with the calls made, in order.
\<close>

primrec run_minimizer ::
  "minimizer \<Rightarrow> (real \<Rightarrow> ('d, 't, 's) cost_args \<Rightarrow> error + real) \<Rightarrow> ('d, 't, 's) cost_args
     \<Rightarrow> error + optimize_result \<times> ('d, 't, 's) call list" where
  "run_minimizer (Finish res) f args = Inr (res, [])"
| "run_minimizer (Propose c k) f args =
     (case f c args of
        Inl e \<Rightarrow> Inl e
      | Inr score \<Rightarrow>
          (case run_minimizer (k score) f args of
             Inl e \<Rightarrow> Inl e
           | Inr (res, calls) \<Rightarrow>
               Inr (res, \<lparr>call_center = c, call_args = args, call_score = score\<rparr> # calls)))"

text \<open>\<open>_costFunc(center, *args)\<close>.\<close>

definition costFunc_args ::
  "('d, 't, 's) externals \<Rightarrow> real \<Rightarrow> ('d, 't, 's) cost_args \<Rightarrow> error + real" where
  "costFunc_args ext center args =
     costFunc ext center (arg_data args) (arg_theta args) (arg_slice_no args)
       (arg_hist_min args) (arg_hist_max args) (arg_mask args) (arg_ratio args)"

text \<open>
  \<open>optimize_center\<close> up to the call of the minimizer, with the minimizer's whole result
  and the calls of the objective it made.
\<close>

definition optimize_center_run ::
  "('d, 't, 's) externals \<Rightarrow> 'd \<Rightarrow> 't \<Rightarrow> 's \<Rightarrow> real \<Rightarrow> real \<Rightarrow> bool \<Rightarrow> real
     \<Rightarrow> error + optimize_result \<times> ('d, 't, 's) call list" where
  "optimize_center_run ext data theta slice_no center_init tol mask' ratio =
     (case init_recon ext data theta slice_no center_init mask' ratio of
        Inl e \<Rightarrow> Inl e
      | Inr data_recon \<Rightarrow>
          (case hist_limits data_recon of
             Inl e \<Rightarrow> Inl e
           | Inr (hist_min, hist_max) \<Rightarrow>
               run_minimizer (minimize ext center_init tol) (costFunc_args ext)
                 \<lparr>arg_data = data, arg_theta = theta, arg_slice_no = slice_no,
                  arg_hist_min = hist_min, arg_hist_max = hist_max,
                  arg_mask = mask', arg_ratio = ratio\<rparr>))"

text \<open>\<open>optimize_center\<close>: what the caller receives is \<open>res.x\<close>.\<close>

definition optimize_center ::
  "('d, 't, 's) externals \<Rightarrow> 'd \<Rightarrow> 't \<Rightarrow> 's \<Rightarrow> real \<Rightarrow> real \<Rightarrow> bool \<Rightarrow> real \<Rightarrow> error + real" where
  "optimize_center ext data theta slice_no center_init tol mask' ratio =
     (case optimize_center_run ext data theta slice_no center_init tol mask' ratio of
        Inl e \<Rightarrow> Inl e
      | Inr (res, calls) \<Rightarrow> Inr (res_x res))"

section \<open>The specification's wording, and a small run to evaluate\<close>

text \<open>
  The mask as the specification words it: with image-centred coordinates \<open>x\<close> (column)
  and \<open>y\<close> (row) and the radius half the image edge, \<open>img'\<close> is zero where
  \<open>x\<^sup>2 + y\<^sup>2 > (ratio * radius)\<^sup>2\<close> and equal to \<open>img\<close> elsewhere.
\<close>

definition circle_masked :: "real \<Rightarrow> frame \<Rightarrow> frame \<Rightarrow> bool" where
  "circle_masked ratio img img' \<longleftrightarrow>
     length img' = length img \<and>
     (\<forall>i<length img. length (img' ! i) = length (img ! i) \<and>
        (\<forall>j<length (img ! i).
           let radius = real (length img) / 2;
               x = real j - radius;
               y = real i - radius
           in img' ! i ! j = (if x * x + y * y > (ratio * radius)\<^sup>2 then 0 else img ! i ! j)))"

text \<open>
  What a caller and the progress channel can observe of a run: the minimizer's result and,
  for every evaluation in order, the candidate centre and its score.
\<close>

definition observed ::
  "error + optimize_result \<times> ('d, 't, 's) call list \<Rightarrow> error + optimize_result \<times> (real \<times> real) list" where
  "observed r = (case r of Inl e \<Rightarrow> Inl e
      | Inr (res, calls) \<Rightarrow> Inr (res, map (\<lambda>c. (call_center c, call_score c)) calls))"

text \<open>
  A concrete set of collaborators for evaluating the definitions: a reconstructor that
  returns one fixed \<open>2 \<times> 2\<close> slice for every centre, the identity for the smoothing
  filter and the cast, a histogram that puts every pixel in bucket 0, and a minimizer that
  evaluates the initial centre and the next integer and then stops there, reporting
  \<open>success = ok\<close>.
\<close>

definition example_recon :: recon_data where
  "example_recon = [[[7, - 4], [10, 3]]]"

definition example_minimizer :: "bool \<Rightarrow> real \<Rightarrow> real \<Rightarrow> minimizer" where
  "example_minimizer ok x0 tol =
     Propose x0 (\<lambda>s. Propose (x0 + 1) (\<lambda>s'.
       Finish \<lparr>res_x = x0 + 1, res_fun = s', res_success = ok\<rparr>))"

definition example_ext :: "bool \<Rightarrow> (unit, unit, unit) externals" where
  "example_ext ok =
     \<lparr>shape2 = (\<lambda>_. 2),
      reconstruct = (\<lambda>_ _ _ _. Inr example_recon),
      gaussian_filter = (\<lambda>a _. a),
      histogram = (\<lambda>a bins rng. Inr (length (flatten a) # replicate (bins - 1) 0)),
      minimize = example_minimizer ok,
      float32 = (\<lambda>c. c)\<rparr>"

text \<open>
  A second set of collaborators, closer to the libraries: the histogram raises when the
  upper end of the range is below the lower one, as \<open>np.histogram\<close> does, and otherwise
  counts into bucket 0 the pixels that lie within the range; the reconstructor gives the
  slice of \<open>example_recon\<close> at centre 5 and a slice with one brighter pixel at every
  other centre; the minimizer is the one above and reports an exhausted budget.
\<close>

definition in_range_histogram :: "recon_data \<Rightarrow> nat \<Rightarrow> real \<times> real \<Rightarrow> error + nat list" where
  "in_range_histogram a bins rng =
     (case rng of (lo, hi) \<Rightarrow>
        if hi < lo then Inl ValueError
        else Inr (length (filter (\<lambda>v. lo \<le> v \<and> v \<le> hi) (flatten a)) # replicate (bins - 1) 0))"

definition drifting_recon :: "real \<Rightarrow> recon_data" where
  "drifting_recon c = (if c = 5 then [[[7, - 4], [10, 3]]] else [[[7, - 4], [30, 3]]])"

definition drifting_ext :: "(unit, unit, unit) externals" where
  "drifting_ext =
     \<lparr>shape2 = (\<lambda>_. 2),
      reconstruct = (\<lambda>_ _ c _. Inr (drifting_recon c)),
      gaussian_filter = (\<lambda>a _. a),
      histogram = in_range_histogram,
      minimize = example_minimizer False,
      float32 = (\<lambda>c. c)\<rparr>"

text \<open>
  Collaborators with a chosen detector width \<open>data.shape[2]\<close> and a chosen
  reconstruction, the same for every centre.
\<close>

definition fixed_ext :: "nat \<Rightarrow> recon_data \<Rightarrow> (unit, unit, unit) externals" where
  "fixed_ext n data_recon =
     \<lparr>shape2 = (\<lambda>_. n),
      reconstruct = (\<lambda>_ _ _ _. Inr data_recon),
      gaussian_filter = (\<lambda>a _. a),
      histogram = in_range_histogram,
      minimize = example_minimizer True,
      float32 = (\<lambda>c. c)\<rparr>"

section \<open>Properties of normalize\<close>

lemma same_shape_length: "same_shape a b \<Longrightarrow> length a = length b"
  unfolding same_shape_def by (metis length_map)

lemma same_shape_row:
  "same_shape a b \<Longrightarrow> r < length a \<Longrightarrow> length (a ! r) = length (b ! r)"
  unfolding same_shape_def by (metis length_map nth_map)

lemma normalized_nth:
  assumes "same_shape p d" "same_shape w d" "r < length p" "c < length (p ! r)"
  shows "normalized w d p ! r ! c = (p ! r ! c - d ! r ! c) / (w ! r ! c - d ! r ! c)"
proof -
  have l: "length p = length d" "length w = length d"
    using assms(1,2) by (simp_all add: same_shape_length)
  have r: "length (p ! r) = length (d ! r)" "length (w ! r) = length (d ! r)"
    using assms l by (simp_all add: same_shape_row)
  show ?thesis
    using assms(3,4) l r
    by (simp add: normalized_def divide_frames_def subtract_def)
qed

lemma normalized_shape:
  assumes "same_shape p d" "same_shape w d"
  shows "same_shape (normalized w d p) d"
proof -
  have l: "length p = length d" "length w = length d"
    using assms by (simp_all add: same_shape_length)
  have "map length (normalized w d p) = map length d"
  proof (rule nth_equalityI)
    show "length (map length (normalized w d p)) = length (map length d)"
      using l by (simp add: normalized_def divide_frames_def subtract_def)
  next
    fix i assume "i < length (map length (normalized w d p))"
    then have i: "i < length d"
      using l by (simp add: normalized_def divide_frames_def subtract_def)
    then have "length (p ! i) = length (d ! i)" "length (w ! i) = length (d ! i)"
      using assms l by (simp_all add: same_shape_row)
    then show "map length (normalized w d p) ! i = map length d ! i"
      using i l by (simp add: normalized_def divide_frames_def subtract_def)
  qed
  then show ?thesis by (simp add: same_shape_def)
qed

lemma normalize_loop_result:
  assumes "\<forall>m\<in>set ind. m < length data"
    and "\<forall>p\<in>set data. same_shape p d"
    and "same_shape w d"
    and "distinct ind"
  shows "normalize_loop ind w d data =
           Inr (map (\<lambda>k. if k \<in> set ind then normalized w d (data ! k) else data ! k)
                    [0..<length data])"
  using assms
proof (induction ind arbitrary: data)
  case Nil
  then show ?case by (simp add: map_nth)
next
  case (Cons m ind)
  let ?data1 = "data[m := normalized w d (data ! m)]"
  have m: "m < length data" using Cons.prems(1) by simp
  have sm: "same_shape (data ! m) d" using Cons.prems(2) m by simp
  have sh1: "\<forall>p\<in>set ?data1. same_shape p d"
  proof
    fix p assume "p \<in> set ?data1"
    then have "p \<in> insert (normalized w d (data ! m)) (set data)"
      using set_update_subset_insert by fast
    then show "same_shape p d"
      using Cons.prems(2,3) sm normalized_shape by auto
  qed
  have ih: "normalize_loop ind w d ?data1 =
      Inr (map (\<lambda>k. if k \<in> set ind then normalized w d (?data1 ! k) else ?data1 ! k)
               [0..<length ?data1])"
    using Cons.IH [of ?data1] Cons.prems sh1 by simp
  have eq: "map (\<lambda>k. if k \<in> set ind then normalized w d (?data1 ! k) else ?data1 ! k)
               [0..<length ?data1] =
            map (\<lambda>k. if k \<in> set (m # ind) then normalized w d (data ! k) else data ! k)
               [0..<length data]"
    using Cons.prems(4) m by (auto simp: nth_list_update)
  show ?case
    using m sm Cons.prems(3) ih eq by (simp add: normalized_def)
qed

lemma normalize_loop_frame:
  "normalize_loop ind w d data = Inr data' \<Longrightarrow>
     length data' = length data \<and> (\<forall>k. k \<notin> set ind \<longrightarrow> data' ! k = data ! k)"
proof (induction ind arbitrary: data)
  case Nil
  then show ?case by simp
next
  case (Cons m ind)
  then show ?case
    by (fastforce split: if_splits)
qed

lemma normalize_loop_append:
  "normalize_loop (xs @ ys) w d data =
     (case normalize_loop xs w d data of Inl e \<Rightarrow> Inl e | Inr data' \<Rightarrow> normalize_loop ys w d data')"
  by (induction xs arbitrary: data) auto

lemma clamp_nth:
  "m < length data \<Longrightarrow> r < length (data ! m) \<Longrightarrow> c < length (data ! m ! r) \<Longrightarrow>
     clamp k data ! m ! r ! c = (if data ! m ! r ! c > k then k else data ! m ! r ! c)"
  by (simp add: clamp_def)

lemma normalize_frame_no_cutoff:
  "normalize (ind, dshape, data_white, data_dark, None) data = Inr out \<Longrightarrow> k \<notin> set ind \<Longrightarrow>
     out ! k = data ! k"
  using normalize_loop_frame [of ind data_white data_dark data out]
  by (simp add: normalize_def split: sum.splits)

lemma normalize_each_no_cutoff:
  "normalize_each parts dshape (data_white, data_dark, None) data =
     normalize (concat parts, dshape, data_white, data_dark, None) data"
proof (induction parts arbitrary: data)
  case Nil
  show ?case by (simp add: normalize_def)
next
  case (Cons ind parts)
  show ?case
    using Cons.IH
    by (simp add: normalize_def normalize_loop_append split: sum.splits)
qed

lemma normalize_partitions_no_cutoff:
  assumes "distinct (concat parts)" and "set (concat parts) = {0..<length data}"
    and "\<forall>p\<in>set data. same_shape p data_dark" and "same_shape data_white data_dark"
  shows "normalize_each parts dshape (data_white, data_dark, None) data =
           normalize ([0..<length data], dshape, data_white, data_dark, None) data"
proof -
  have a: "\<forall>m\<in>set (concat parts). m < length data" using assms(2) by simp
  have b: "\<forall>m\<in>set [0..<length data]. m < length data" by simp
  have "normalize_loop (concat parts) data_white data_dark data =
        normalize_loop [0..<length data] data_white data_dark data"
    unfolding normalize_loop_result [OF a assms(3,4,1)]
      normalize_loop_result [OF b assms(3,4) distinct_upt] assms(2)
    by simp
  then show ?thesis
    by (simp add: normalize_each_no_cutoff normalize_def)
qed

section \<open>Properties of optimize_center\<close>

lemma amin_Min: "xs \<noteq> [] \<Longrightarrow> amin xs = Min (set xs)"
  by (cases xs) (simp_all add: amin_def Min.set_eq_fold [symmetric] del: set_simps)

lemma amax_Max: "xs \<noteq> [] \<Longrightarrow> amax xs = Max (set xs)"
  by (cases xs) (simp_all add: amax_def Max.set_eq_fold [symmetric] del: set_simps)

lemma length_ogrid: "length (ogrid rad) = 2 * rad"
  by (simp add: ogrid_def)

lemma nth_ogrid: "i < 2 * rad \<Longrightarrow> ogrid rad ! i = int i - int rad"
  by (simp add: ogrid_def)

lemma shape_circular_mask:
  "map length (circular_mask n ratio) = replicate (2 * (n div 2)) (2 * (n div 2))"
  by (simp add: circular_mask_def Let_def length_ogrid map_replicate_const o_def)

lemma nth_circular_mask:
  assumes "i < 2 * (n div 2)" "j < 2 * (n div 2)"
  shows "circular_mask n ratio ! i ! j \<longleftrightarrow>
           (real j - real (n div 2)) * (real j - real (n div 2))
           + (real i - real (n div 2)) * (real i - real (n div 2))
           > (ratio * real (n div 2))\<^sup>2"
  using assms
  by (simp add: circular_mask_def Let_def length_ogrid nth_ogrid power2_eq_square algebra_simps)

lemma apply_mask_masked:
  assumes "length img = 2 * (n div 2)" "\<forall>row\<in>set img. length row = length img"
  shows "\<exists>img'. apply_mask n ratio (img # rest) = Inr (img' # rest) \<and> circle_masked ratio img img'"
proof -
  let ?msk = "circular_mask n ratio"
  let ?img' = "map2 (map2 (\<lambda>b v. if b then 0 else v)) ?msk img"
  have sh: "map length ?msk = map length img"
  proof -
    have "map length img = map (\<lambda>_. 2 * (n div 2)) img"
      using assms by (intro map_cong) simp_all
    then show ?thesis
      using assms(1) by (simp add: shape_circular_mask map_replicate_const)
  qed
  have len: "length ?msk = length img"
    using sh by (metis length_map)
  have row: "length (?msk ! i) = length (img ! i)" if "i < length img" for i
    using sh that len by (metis length_map nth_map)
  have ap: "apply_mask n ratio (img # rest) = Inr (?img' # rest)"
    using sh by (simp add: apply_mask_def)
  have rad: "real (length img) / 2 = real (n div 2)"
    using assms(1) by simp
  have "circle_masked ratio img ?img'"
    unfolding circle_masked_def Let_def
  proof (intro conjI allI impI)
    show "length ?img' = length img" using len by simp
  next
    fix i assume i: "i < length img"
    show "length (?img' ! i) = length (img ! i)"
      using i len row by simp
  next
    fix i j assume i: "i < length img" and j: "j < length (img ! i)"
    have j': "j < 2 * (n div 2)" using assms i j by simp
    have i': "i < 2 * (n div 2)" using assms i by simp
    show "?img' ! i ! j =
        (if (real j - real (length img) / 2) * (real j - real (length img) / 2)
            + (real i - real (length img) / 2) * (real i - real (length img) / 2)
            > (ratio * (real (length img) / 2))\<^sup>2
         then 0 else img ! i ! j)"
      using i j len row [OF i] nth_circular_mask [OF i' j', of ratio]
      unfolding rad by simp
  qed
  with ap show ?thesis by blast
qed

lemma run_minimizer_calls:
  "run_minimizer m f args = Inr (res, calls) \<Longrightarrow>
     \<forall>call\<in>set calls. call_args call = args \<and> f (call_center call) args = Inr (call_score call)"
proof (induction m arbitrary: res calls)
  case (Finish r)
  then show ?case by simp
next
  case (Propose c k)
  then show ?case
    by (fastforce split: sum.splits prod.splits)
qed

lemma run_minimizer_total:
  assumes "\<And>c. \<exists>s. f c args = Inr s"
  shows "\<exists>res calls. run_minimizer m f args = Inr (res, calls)"
proof (induction m)
  case (Finish r)
  show ?case by simp
next
  case (Propose c k)
  obtain s where s: "f c args = Inr s" using assms by blast
  obtain res calls where "run_minimizer (k s) f args = Inr (res, calls)"
    using Propose.IH [of "k s"] by blast
  with s show ?case by simp
qed

lemma run_minimizer_observed:
  assumes "\<And>c. f c args1 = g c args2"
  shows "observed (run_minimizer m f args1) = observed (run_minimizer m g args2)"
proof (induction m)
  case (Finish r)
  show ?case by (simp add: observed_def)
next
  case (Propose c k)
  show ?case
  proof (cases "g c args2")
    case (Inl e)
    then show ?thesis using assms [of c] by (simp add: observed_def)
  next
    case (Inr s)
    have "observed (run_minimizer (k s) f args1) = observed (run_minimizer (k s) g args2)"
      using Propose.IH [of "k s"] by blast
    then show ?thesis
      using Inr assms [of c]
      by (auto simp: observed_def split: sum.splits prod.splits)
  qed
qed

lemma costFunc_ratio_unmasked:
  "costFunc ext center data theta slice_no hist_min hist_max False ratio1 =
   costFunc ext center data theta slice_no hist_min hist_max False ratio2"
  by (simp add: costFunc_def cost_recon_def cong: sum.case_cong)

lemmas example_defs = example_ext_def example_recon_def example_minimizer_def
  init_recon_def apply_mask_def circular_mask_def ogrid_def hist_limits_def flatten_def
  amin_def amax_def optimize_center_run_def optimize_center_def costFunc_args_def
  costFunc_def cost_recon_def

lemma example_init:
  "init_recon (example_ext ok) () () () c True 1 = Inr [[[0, - 4], [10, 3]]]"
  by (simp add: example_ext_def example_recon_def init_recon_def apply_mask_def
      circular_mask_def ogrid_def upt_rec)

lemma example_cost_recon:
  "cost_recon (example_ext ok) c () () () True 1 = Inr [[[0, - 4], [10, 3]]]"
  by (simp add: example_ext_def example_recon_def cost_recon_def apply_mask_def
      circular_mask_def ogrid_def upt_rec)

lemma example_run:
  "\<exists>res calls. optimize_center_run (example_ext ok) () () () 5 1 True 1 = Inr (res, calls) \<and>
     length calls = 2 \<and> res_x res = 6 \<and> res_success res = ok"
  by (simp add: example_defs upt_rec)

lemma hist_limits_ordered:
  assumes "hist_limits data_recon = Inr (hist_min, hist_max)"
  shows "hist_min \<le> hist_max"
proof -
  have ne: "flatten data_recon \<noteq> []"
    using assms by (auto simp: hist_limits_def split: if_splits)
  define mn where "mn = Min (set (flatten data_recon))"
  define mx where "mx = Max (set (flatten data_recon))"
  have a: "amin (flatten data_recon) = mn" "amax (flatten data_recon) = mx"
    using ne by (simp_all add: amin_Min amax_Max mn_def mx_def)
  have le: "mn \<le> mx"
  proof -
    have "hd (flatten data_recon) \<in> set (flatten data_recon)" using ne by simp
    then have "mn \<le> hd (flatten data_recon)" "hd (flatten data_recon) \<le> mx"
      unfolding mn_def mx_def by simp_all
    then show ?thesis by simp
  qed
  have "hist_min = (if mn < 0 then 2 * mn else 0.5 * mn)"
    and "hist_max = (if mx < 0 then 0.5 * mx else 2 * mx)"
    using assms ne by (auto simp: hist_limits_def Let_def a split: if_splits)
  then show ?thesis using le by (auto split: if_splits)
qed

lemma costFunc_histogram:
  assumes "costFunc ext center data theta slice_no hist_min hist_max mask' ratio = Inr score"
  shows "\<exists>recon_c counts.
           cost_recon ext center data theta slice_no mask' ratio = Inr recon_c \<and>
           histogram ext (gaussian_filter ext recon_c 2) 64 (hist_min, hist_max) = Inr counts \<and>
           score = entropy_score counts (length (flatten recon_c))"
  using assms by (auto simp: costFunc_def split: sum.splits)

lemmas drifting_defs = drifting_ext_def drifting_recon_def in_range_histogram_def
  example_minimizer_def init_recon_def apply_mask_def circular_mask_def ogrid_def
  hist_limits_def flatten_def amin_def amax_def optimize_center_run_def
  optimize_center_def costFunc_args_def costFunc_def cost_recon_def

lemma drifting_run:
  "\<exists>res calls. optimize_center_run drifting_ext () () () 5 1 True 1 = Inr (res, calls) \<and>
     map call_center calls = [5, 6]"
  by (simp add: drifting_defs upt_rec)

lemma drifting_cost_recon:
  "cost_recon drifting_ext 6 () () () True 1 = Inr [[[0, - 4], [30, 3]]]"
  by (simp add: drifting_ext_def drifting_recon_def cost_recon_def apply_mask_def
      circular_mask_def ogrid_def upt_rec)

lemma drifting_init:
  "init_recon drifting_ext () () () 5 True 1 = Inr [[[0, - 4], [10, 3]]]"
  by (simp add: drifting_ext_def drifting_recon_def init_recon_def apply_mask_def
      circular_mask_def ogrid_def upt_rec)

lemma flatten_Cons_nonempty:
  assumes "img \<noteq> []" and "\<forall>row\<in>set img. length row = length img"
  shows "flatten (img # rest) \<noteq> []"
proof -
  obtain row rows where img: "img = row # rows" using assms(1) by (cases img) auto
  then have "row \<noteq> []" using assms(2) by auto
  then show ?thesis using img by (simp add: flatten_def)
qed

lemma circle_masked_shape:
  assumes "circle_masked ratio img img'" and "img \<noteq> []"
    and "\<forall>row\<in>set img. length row = length img"
  shows "img' \<noteq> [] \<and> (\<forall>row\<in>set img'. length row = length img')"
proof -
  have l: "length img' = length img"
    and r: "\<And>i. i < length img \<Longrightarrow> length (img' ! i) = length (img ! i)"
    using assms(1) by (simp_all add: circle_masked_def)
  have "length (img' ! i) = length img'" if "i < length img'" for i
  proof -
    have il: "i < length img" using that l by simp
    have "length (img' ! i) = length (img ! i)" by (rule r [OF il])
    moreover have "img ! i \<in> set img" using il by simp
    ultimately show ?thesis using assms(3) l by simp
  qed
  then have "\<forall>row\<in>set img'. length row = length img'"
    by (simp add: all_set_conv_all_nth)
  then show ?thesis using l assms(2) by auto
qed

section \<open>Claims on normalize\<close>

text \<open>
  Claim C1. Let the partition \<open>ind\<close> hold distinct indices within the volume, and let the
  calibration frames have the shape of one projection. Then \<open>normalize\<close> returns, and
  for every \<open>m\<close> in the partition and every pixel \<open>(r, c)\<close> with
  \<open>white \<noteq> dark\<close> there, where \<open>q = (data[m] - dark) / (white - dark)\<close> at that
  pixel: without a cutoff the output pixel is \<open>q\<close>; with a cutoff \<open>k\<close> the output
  pixel is at most \<open>k\<close>, and is \<open>q\<close> whenever \<open>q \<le> k\<close>.
\<close>

theorem normalize_partition_values:
  assumes "\<forall>m\<in>set ind. m < length data"
    and "\<forall>p\<in>set data. same_shape p data_dark"
    and "same_shape data_white data_dark"
    and "distinct ind"
    and "m \<in> set ind" and "r < length (data ! m)" and "c < length (data ! m ! r)"
    and "data_white ! r ! c \<noteq> data_dark ! r ! c"
  shows "\<exists>out. normalize (ind, dshape, data_white, data_dark, cutoff) data = Inr out \<and>
           (let q = (data ! m ! r ! c - data_dark ! r ! c) / (data_white ! r ! c - data_dark ! r ! c)
            in (cutoff = None \<longrightarrow> out ! m ! r ! c = q) \<and>
               (\<forall>k. cutoff = Some k \<longrightarrow>
                  out ! m ! r ! c \<le> k \<and> (q \<le> k \<longrightarrow> out ! m ! r ! c = q)))"
proof -
  let ?f = "\<lambda>k. if k \<in> set ind then normalized data_white data_dark (data ! k) else data ! k"
  let ?loop = "map ?f [0..<length data]"
  let ?q = "(data ! m ! r ! c - data_dark ! r ! c) / (data_white ! r ! c - data_dark ! r ! c)"
  have m: "m < length data" using assms(1,5) by simp
  have sm: "same_shape (data ! m) data_dark" using assms(2) m by simp
  have loop: "normalize_loop ind data_white data_dark data = Inr ?loop"
    using assms(1-4) by (rule normalize_loop_result)
  have lm: "?loop ! m = normalized data_white data_dark (data ! m)"
    using m assms(5) by simp
  have shm: "same_shape (?loop ! m) data_dark"
    unfolding lm using sm assms(3) by (rule normalized_shape)
  have r': "r < length (?loop ! m)"
    using assms(6) same_shape_length [OF shm] same_shape_length [OF sm] by simp
  have c': "c < length (?loop ! m ! r)"
    using assms(6,7) same_shape_row [OF shm r'] same_shape_row [OF sm assms(6)] by simp
  have q: "?loop ! m ! r ! c = ?q"
    unfolding lm using sm assms(3,6,7) by (rule normalized_nth)
  have m': "m < length ?loop" using m by simp
  show ?thesis
  proof (cases cutoff)
    case None
    then have "normalize (ind, dshape, data_white, data_dark, cutoff) data = Inr ?loop"
      using loop by (simp add: normalize_def)
    then show ?thesis using q None by (simp add: Let_def)
  next
    case (Some k)
    then have n: "normalize (ind, dshape, data_white, data_dark, cutoff) data = Inr (clamp k ?loop)"
      using loop by (simp add: normalize_def)
    have "clamp k ?loop ! m ! r ! c = (if ?q > k then k else ?q)"
      using clamp_nth [OF m' r' c', of k] q by simp
    then show ?thesis using n Some by (simp add: Let_def)
  qed
qed

theorem normalize_partition_values_witness:
  "\<exists>out. normalize ([0], (2, 1, 1), [[2]], [[0]], Some 1) [[[4]], [[10]]] = Inr out \<and>
     out ! 0 ! 0 ! 0 \<le> 1 \<and> \<not> (4 - 0) / (2 - 0) \<le> (1::real)"
  using normalize_partition_values [of "[0]" "[[[4]], [[10]]]" "[[0]]" "[[2]]" 0 0 0 "(2, 1, 1)" "Some 1"]
  by (simp add: same_shape_def Let_def)

text \<open>
  Claim C2 says that projections outside the partition stay as they were. The source
  clamps the whole shared array, not the projections of the partition: with partition
  \<open>[0]\<close> and cutoff 1, projection 1 of the volume below goes from 10 to 1.
\<close>

theorem normalize_clamps_foreign_projection:
  "normalize ([0], (2, 1, 1), [[2]], [[0]], Some 1) [[[4]], [[10]]] = Inr [[[1]], [[1]]]"
  by (simp add: normalize_def same_shape_def subtract_def divide_frames_def clamp_def)

text \<open>
  Claim C3 says that one call per partition gives the volume that one call on the whole
  range gives. With a cutoff, a call clamps the raw values of the projections that later
  calls are yet to divide: on the volume below the partitions \<open>[0]\<close>, \<open>[1]\<close> give
  \<open>1/2\<close> for projection 1 (10 clamped to 1, then divided by 2), in the other order
  \<open>1/2\<close> for projection 0, and the whole range gives 1 for both.
\<close>

theorem normalize_each_differs_from_whole:
  "normalize_each [[0], [1]] (2, 1, 1) ([[2]], [[0]], Some 1) [[[4]], [[10]]] = Inr [[[1]], [[1 / 2]]] \<and>
   normalize_each [[1], [0]] (2, 1, 1) ([[2]], [[0]], Some 1) [[[4]], [[10]]] = Inr [[[1 / 2]], [[1]]] \<and>
   normalize ([0, 1], (2, 1, 1), [[2]], [[0]], Some 1) [[[4]], [[10]]] = Inr [[[1]], [[1]]]"
  by (simp add: normalize_def same_shape_def subtract_def divide_frames_def clamp_def)

section \<open>Claims on optimize_center\<close>

text \<open>
  Claim C4. When the initial reconstruction (masked if the mask is on) has at least one
  pixel, \<open>optimize_center\<close> runs the minimizer with the histogram range
  \<open>hist_min = (if min < 0 then 2 min else 0.5 min)\<close> and
  \<open>hist_max = (if max < 0 then 0.5 max else 2 max)\<close>, where \<open>min\<close> and \<open>max\<close>
  are the least and the greatest pixel of that reconstruction. The run evaluated after the
  theorem has \<open>min = -4\<close> and \<open>max = 10\<close> and gets the range \<open>(-8, 20)\<close>.
\<close>

theorem optimize_center_hist_range:
  assumes "init_recon ext data theta slice_no center_init mask' ratio = Inr data_recon"
    and "flatten data_recon \<noteq> []"
  shows "\<exists>hist_min hist_max.
           hist_min = (if Min (set (flatten data_recon)) < 0
                       then 2 * Min (set (flatten data_recon))
                       else 0.5 * Min (set (flatten data_recon))) \<and>
           hist_max = (if Max (set (flatten data_recon)) < 0
                       then 0.5 * Max (set (flatten data_recon))
                       else 2 * Max (set (flatten data_recon))) \<and>
           hist_limits data_recon = Inr (hist_min, hist_max) \<and>
           optimize_center_run ext data theta slice_no center_init tol mask' ratio =
             run_minimizer (minimize ext center_init tol) (costFunc_args ext)
               \<lparr>arg_data = data, arg_theta = theta, arg_slice_no = slice_no,
                arg_hist_min = hist_min, arg_hist_max = hist_max,
                arg_mask = mask', arg_ratio = ratio\<rparr>"
proof -
  define mn where "mn = Min (set (flatten data_recon))"
  define mx where "mx = Max (set (flatten data_recon))"
  have a: "amin (flatten data_recon) = mn" "amax (flatten data_recon) = mx"
    using assms(2) by (simp_all add: amin_Min amax_Max mn_def mx_def)
  have h: "hist_limits data_recon =
      Inr (if mn < 0 then 2 * mn else 0.5 * mn, if mx < 0 then 0.5 * mx else 2 * mx)"
    using assms(2) by (simp add: hist_limits_def Let_def a)
  show ?thesis
    unfolding mn_def [symmetric] mx_def [symmetric]
    using assms(1) h by (simp add: optimize_center_run_def)
qed

theorem optimize_center_hist_range_witness:
  "hist_limits [[[0, - 4], [10, 3]]] = Inr (- 8, 20) \<and>
   optimize_center_run (example_ext True) () () () 5 1 True 1 =
     run_minimizer (minimize (example_ext True) 5 1) (costFunc_args (example_ext True))
       \<lparr>arg_data = (), arg_theta = (), arg_slice_no = (),
        arg_hist_min = - 8, arg_hist_max = 20, arg_mask = True, arg_ratio = 1\<rparr>"
proof -
  have f: "flatten [[[0, - 4], [10, 3 :: real]]] \<noteq> []"
    by (simp add: flatten_def)
  have mn: "Min (set (flatten [[[0, - 4], [10, 3 :: real]]])) = - 4"
    and mx: "Max (set (flatten [[[0, - 4], [10, 3 :: real]]])) = 10"
    by (simp_all add: flatten_def)
  show ?thesis
    using optimize_center_hist_range [OF example_init f, of True 5 1]
    unfolding mn mx by auto
qed

text \<open>
  Claim C5. For a candidate centre whose (masked) reconstruction has at least one pixel and
  whose smoothed (sigma 2) reconstruction the histogram call bins into 64 buckets over
  \<open>[hist_min, hist_max]\<close>, the score returned by \<open>_costFunc\<close> is
  \<open>- \<Sum> p log\<^sub>2 p\<close> over the 64 buckets, where \<open>p\<close> is the bucket count divided by
  the pixel count of the reconstruction, plus the floor \<open>1e-12\<close>.
\<close>

theorem costFunc_entropy:
  assumes "cost_recon ext center data theta slice_no mask' ratio = Inr data_recon"
    and "histogram ext (gaussian_filter ext data_recon 2) 64 (hist_min, hist_max) = Inr counts"
    and "length counts = 64"
    and "flatten data_recon \<noteq> []"
  shows "costFunc ext center data theta slice_no hist_min hist_max mask' ratio =
           Inr (- (\<Sum>i<64. (real (counts ! i) / real (length (flatten data_recon)) + 1 / 10 ^ 12)
                        * log 2 (real (counts ! i) / real (length (flatten data_recon)) + 1 / 10 ^ 12)))"
proof -
  let ?p = "\<lambda>c. real c / real (length (flatten data_recon)) + 1 / 10 ^ 12"
  have "(\<Sum>p\<leftarrow>map ?p counts. p * log 2 p) = (\<Sum>i<length counts. ?p (counts ! i) * log 2 (?p (counts ! i)))"
    by (simp add: sum_list_sum_nth atLeast0LessThan)
  then show ?thesis
    using assms(1,2,3) by (simp add: costFunc_def entropy_score_def Let_def)
qed

theorem costFunc_entropy_witness:
  "costFunc (example_ext True) 5 () () () (- 8) 20 True 1 =
     Inr (- (\<Sum>i<64. (real ((4 # replicate 63 0) ! i) / real (length (flatten [[[0, - 4], [10, 3 :: real]]])) + 1 / 10 ^ 12)
         * log 2 (real ((4 # replicate 63 0) ! i) / real (length (flatten [[[0, - 4], [10, 3 :: real]]])) + 1 / 10 ^ 12)))"
proof -
  have h: "histogram (example_ext True) (gaussian_filter (example_ext True) [[[0, - 4], [10, 3]]] 2)
             64 (- 8, 20) = Inr (4 # replicate 63 0)"
    by (simp add: example_ext_def flatten_def)
  have l: "length (4 # replicate 63 (0::nat)) = 64" by simp
  have f: "flatten [[[0, - 4], [10, 3 :: real]]] \<noteq> []" by (simp add: flatten_def)
  show ?thesis
    by (rule costFunc_entropy [OF example_cost_recon h l f])
qed

text \<open>
  Claim C6 says that, with the mask on, every pixel of the reconstructed image outside the
  circle is set to zero. The source builds a mask of shape \<open>2 rad \<times> 2 rad\<close> with
  \<open>rad = data.shape[2] div 2\<close> and applies it to slice 0 alone. For a detector width
  of 3 the mask is \<open>2 \<times> 2\<close> and does not fit the \<open>3 \<times> 3\<close> slice: neither
  the initialisation nor the objective function produces a masked image. For a
  reconstruction of two slices and ratio 0, slice 1 keeps all its pixels.
\<close>

theorem circular_mask_unfit_counterexample:
  "init_recon (fixed_ext 3 [[[1, 2, 3], [4, 5, 6], [7, 8, 9]]]) () () () 5 True 1
     = Inl IndexError \<and>
   cost_recon (fixed_ext 3 [[[1, 2, 3], [4, 5, 6], [7, 8, 9]]]) 5 () () () True 1
     = Inl IndexError \<and>
   init_recon (fixed_ext 2 [[[7, - 4], [10, 3]], [[9, 9], [9, 9]]]) () () () 5 True 0
     = Inr [[[0, 0], [0, 3]], [[9, 9], [9, 9]]]"
  by (simp add: fixed_ext_def init_recon_def cost_recon_def apply_mask_def
      circular_mask_def ogrid_def upt_rec)

text \<open>
  Claim C6, as the source has it. With the mask on, when slice 0 of the reconstruction is
  a square image whose edge is \<open>2 (data.shape[2] div 2)\<close> (the shape the boolean index
  requires), both the initialisation and the objective function replace that slice by its
  masked image: zero at every pixel with \<open>x\<^sup>2 + y\<^sup>2 > (ratio * radius)\<^sup>2\<close>, unchanged at
  every other pixel, with the radius half the image edge; the other slices stay as they
  are.
\<close>

theorem circular_mask_applied:
  assumes "length img = 2 * (shape2 ext data div 2)"
    and "\<forall>row\<in>set img. length row = length img"
  shows "(reconstruct ext data theta center_init slice_no = Inr (img # rest) \<longrightarrow>
            (\<exists>img'. init_recon ext data theta slice_no center_init True ratio = Inr (img' # rest) \<and>
                    circle_masked ratio img img')) \<and>
         (reconstruct ext data theta (float32 ext center) slice_no = Inr (img # rest) \<longrightarrow>
            (\<exists>img'. cost_recon ext center data theta slice_no True ratio = Inr (img' # rest) \<and>
                    circle_masked ratio img img'))"
  using apply_mask_masked [OF assms, of ratio rest]
  by (simp add: init_recon_def cost_recon_def)

theorem circular_mask_applied_witness:
  "\<exists>img'. init_recon (example_ext True) () () () 5 True 1 = Inr [img'] \<and>
          cost_recon (example_ext True) 5 () () () True 1 = Inr [img'] \<and>
          img' ! 0 ! 0 = 0 \<and> img' ! 0 ! 1 = - 4"
proof -
  let ?img = "[[7, - 4], [10, 3 :: real]]"
  have a: "length ?img = 2 * (shape2 (example_ext True) () div 2)"
    by (simp add: example_ext_def)
  have b: "\<forall>row\<in>set ?img. length row = length ?img" by simp
  have r: "reconstruct (example_ext True) () () c () = Inr (?img # [])" for c
    by (simp add: example_ext_def example_recon_def)
  from circular_mask_applied [OF a b, of "()" 5 "()" "[]" 1 5] r
  obtain img1 img2 where
    i: "init_recon (example_ext True) () () () 5 True 1 = Inr [img1]" "circle_masked 1 ?img img1"
    and c: "cost_recon (example_ext True) 5 () () () True 1 = Inr [img2]" "circle_masked 1 ?img img2"
    by auto
  have e: "img2 = img1" using i(1) c(1) by (simp add: example_init example_cost_recon)
  have "img1 ! 0 ! 0 = 0" "img1 ! 0 ! 1 = - 4"
    using i(2) by (simp_all add: circle_masked_def Let_def power2_eq_square)
  then show ?thesis using i(1) c(1) e by simp
qed

text \<open>
  Claim C7. In a run of \<open>optimize_center\<close> that returns, there is one pair
  \<open>(hist_min, hist_max)\<close>, the histogram range of the initial reconstruction, such
  that every call of the objective function made by the minimizer received exactly this
  pair, and the score it returned is the entropy score of the 64-bucket histogram call
  made with this very pair as its range, on the smoothed reconstruction of that call's own
  candidate. No call takes its range from its own reconstruction.
\<close>

theorem hist_range_frozen:
  assumes "optimize_center_run ext data theta slice_no center_init tol mask' ratio = Inr (res, calls)"
  shows "\<exists>data_recon hist_min hist_max.
           init_recon ext data theta slice_no center_init mask' ratio = Inr data_recon \<and>
           hist_limits data_recon = Inr (hist_min, hist_max) \<and>
           (\<forall>call\<in>set calls.
              arg_hist_min (call_args call) = hist_min \<and>
              arg_hist_max (call_args call) = hist_max \<and>
              costFunc ext (call_center call) data theta slice_no hist_min hist_max mask' ratio
                = Inr (call_score call) \<and>
              (\<exists>recon_c counts.
                 cost_recon ext (call_center call) data theta slice_no mask' ratio = Inr recon_c \<and>
                 histogram ext (gaussian_filter ext recon_c 2) 64 (hist_min, hist_max)
                   = Inr counts \<and>
                 call_score call = entropy_score counts (length (flatten recon_c))))"
proof -
  obtain data_recon where i: "init_recon ext data theta slice_no center_init mask' ratio = Inr data_recon"
    using assms by (auto simp: optimize_center_run_def split: sum.splits)
  obtain hist_min hist_max where h: "hist_limits data_recon = Inr (hist_min, hist_max)"
    using assms i by (auto simp: optimize_center_run_def split: sum.splits)
  let ?args = "\<lparr>arg_data = data, arg_theta = theta, arg_slice_no = slice_no,
                arg_hist_min = hist_min, arg_hist_max = hist_max,
                arg_mask = mask', arg_ratio = ratio\<rparr>"
  have "run_minimizer (minimize ext center_init tol) (costFunc_args ext) ?args = Inr (res, calls)"
    using assms i h by (simp add: optimize_center_run_def)
  then have c: "\<forall>call\<in>set calls. call_args call = ?args \<and>
      costFunc_args ext (call_center call) ?args = Inr (call_score call)"
    by (rule run_minimizer_calls)
  have "arg_hist_min (call_args call) = hist_min \<and>
        arg_hist_max (call_args call) = hist_max \<and>
        costFunc ext (call_center call) data theta slice_no hist_min hist_max mask' ratio
          = Inr (call_score call) \<and>
        (\<exists>recon_c counts.
           cost_recon ext (call_center call) data theta slice_no mask' ratio = Inr recon_c \<and>
           histogram ext (gaussian_filter ext recon_c 2) 64 (hist_min, hist_max) = Inr counts \<and>
           call_score call = entropy_score counts (length (flatten recon_c)))"
    if "call \<in> set calls" for call
  proof -
    have a: "call_args call = ?args"
      and s: "costFunc ext (call_center call) data theta slice_no hist_min hist_max mask' ratio
                = Inr (call_score call)"
      using c that by (simp_all add: costFunc_args_def)
    show ?thesis
      using a s costFunc_histogram [OF s] by simp
  qed
  with i h show ?thesis by blast
qed

theorem hist_range_frozen_witness:
  "\<exists>res calls. optimize_center_run drifting_ext () () () 5 1 True 1 = Inr (res, calls) \<and>
     length calls = 2 \<and>
     hist_limits [[[0, - 4], [10, 3]]] = Inr (- 8, 20) \<and>
     arg_hist_min (call_args (calls ! 0)) = - 8 \<and> arg_hist_max (call_args (calls ! 0)) = 20 \<and>
     arg_hist_min (call_args (calls ! 1)) = - 8 \<and> arg_hist_max (call_args (calls ! 1)) = 20 \<and>
     call_center (calls ! 1) = 6 \<and>
     cost_recon drifting_ext 6 () () () True 1 = Inr [[[0, - 4], [30, 3]]] \<and>
     call_score (calls ! 1) = entropy_score (3 # replicate 63 0) 4"
proof -
  obtain res calls where
    run: "optimize_center_run drifting_ext () () () 5 1 True 1 = Inr (res, calls)"
    and centers: "map call_center calls = [5, 6]"
    using drifting_run by auto
  have len: "length calls = 2"
    using centers by (metis length_map length_Cons list.size(3) numeral_2_eq_2)
  have c1: "call_center (calls ! 1) = 6"
    using centers len by (metis nth_map one_less_numeral_iff semiring_norm(76) nth_Cons_0 nth_Cons_Suc One_nat_def)
  have h: "hist_limits [[[0, - 4], [10, 3]]] = Inr (- 8, 20)"
    by (simp add: hist_limits_def flatten_def amin_def amax_def)
  have all: "\<forall>call\<in>set calls.
      arg_hist_min (call_args call) = - 8 \<and> arg_hist_max (call_args call) = 20 \<and>
      (\<exists>recon_c counts.
         cost_recon drifting_ext (call_center call) () () () True 1 = Inr recon_c \<and>
         histogram drifting_ext (gaussian_filter drifting_ext recon_c 2) 64 (- 8, 20) = Inr counts \<and>
         call_score call = entropy_score counts (length (flatten recon_c)))"
    using hist_range_frozen [OF run] h by (auto simp: drifting_init)
  have in0: "calls ! 0 \<in> set calls" and in1: "calls ! 1 \<in> set calls"
    using len by simp_all
  obtain recon_c counts where
    r: "cost_recon drifting_ext 6 () () () True 1 = Inr recon_c"
    and k: "histogram drifting_ext (gaussian_filter drifting_ext recon_c 2) 64 (- 8, 20) = Inr counts"
    and sc: "call_score (calls ! 1) = entropy_score counts (length (flatten recon_c))"
    using all in1 c1 by auto
  have rc: "recon_c = [[[0, - 4], [30, 3]]]"
    using r by (simp add: drifting_cost_recon)
  have "counts = 3 # replicate 63 0"
    using k unfolding rc
    by (auto simp: drifting_ext_def in_range_histogram_def flatten_def numeral_3_eq_3)
  moreover have "length (flatten [[[0, - 4], [30, 3 :: real]]]) = 4"
    by (simp add: flatten_def)
  ultimately have "call_score (calls ! 1) = entropy_score (3 # replicate 63 0) 4"
    using sc unfolding rc by (simp only:)
  then show ?thesis
    using run len h all in0 in1 c1 drifting_cost_recon by blast
qed

text \<open>
  Claim C8 says that a non-positive tolerance or a mask ratio outside \<open>(0, 1]\<close> is
  rejected before any work. The source tests neither: with tolerance 0 and ratio 0 under
  the mask, the run below reconstructs, masks every pixel but the centre one, searches and
  returns a centre.
\<close>

theorem no_parameter_validation_counterexample:
  "optimize_center (example_ext True) () () () 5 0 True 0 = Inr 6 \<and>
   init_recon (example_ext True) () () () 5 True 0 = Inr [[[0, 0], [0, 3]]]"
  by (simp add: example_defs upt_rec)

text \<open>
  Claim C8, as the source has it: whatever the tolerance and the ratio, with the mask on or
  off, \<open>optimize_center\<close> makes the initial reconstruction (masked when the mask is
  on), derives the histogram range from it, runs the minimizer from the initial centre
  with the tolerance as given, and returns the final point of that run: no value of
  \<open>tol\<close> or \<open>ratio\<close> is rejected. This holds whenever every reconstruction gives a
  non-empty square slice 0 of edge \<open>2 (data.shape[2] div 2)\<close> and the 64-bucket
  histogram call succeeds on every range whose lower end is not above its upper end.
\<close>

theorem optimize_center_accepts_any_tol_ratio:
  assumes recon_ok: "\<And>c. \<exists>img rest. reconstruct ext data theta c slice_no = Inr (img # rest) \<and>
              img \<noteq> [] \<and> length img = 2 * (shape2 ext data div 2) \<and>
              (\<forall>row\<in>set img. length row = length img)"
    and hist_ok: "\<And>a lo hi. lo \<le> hi \<Longrightarrow> \<exists>counts. histogram ext a 64 (lo, hi) = Inr counts"
  shows "\<exists>data_recon hist_min hist_max res calls.
           init_recon ext data theta slice_no center_init mask' ratio = Inr data_recon \<and>
           hist_limits data_recon = Inr (hist_min, hist_max) \<and>
           run_minimizer (minimize ext center_init tol) (costFunc_args ext)
             \<lparr>arg_data = data, arg_theta = theta, arg_slice_no = slice_no,
              arg_hist_min = hist_min, arg_hist_max = hist_max,
              arg_mask = mask', arg_ratio = ratio\<rparr> = Inr (res, calls) \<and>
           optimize_center ext data theta slice_no center_init tol mask' ratio = Inr (res_x res)"
proof -
  have recon: "\<exists>D. (if mask' then init_recon ext data theta slice_no c True ratio
                     else init_recon ext data theta slice_no c False ratio) = Inr D \<and>
                   flatten D \<noteq> []" for c
  proof -
    obtain img rest where r: "reconstruct ext data theta c slice_no = Inr (img # rest)"
      and ne: "img \<noteq> []" and len: "length img = 2 * (shape2 ext data div 2)"
      and rows: "\<forall>row\<in>set img. length row = length img"
      using recon_ok [of c] by blast
    show ?thesis
    proof (cases mask')
      case False
      then show ?thesis
        using r flatten_Cons_nonempty [OF ne rows] by (simp add: init_recon_def)
    next
      case True
      obtain img' where a: "apply_mask (shape2 ext data) ratio (img # rest) = Inr (img' # rest)"
        and m: "circle_masked ratio img img'"
        using apply_mask_masked [OF len rows] by blast
      have "flatten (img' # rest) \<noteq> []"
        using circle_masked_shape [OF m ne rows] flatten_Cons_nonempty by blast
      then show ?thesis using True r a by (simp add: init_recon_def)
    qed
  qed
  obtain D where i: "init_recon ext data theta slice_no center_init mask' ratio = Inr D"
    and f: "flatten D \<noteq> []"
    using recon [of center_init] by (cases mask') auto
  obtain hist_min hist_max where h: "hist_limits D = Inr (hist_min, hist_max)"
    using f by (simp add: hist_limits_def Let_def)
  have le: "hist_min \<le> hist_max"
    using h by (rule hist_limits_ordered)
  let ?args = "\<lparr>arg_data = data, arg_theta = theta, arg_slice_no = slice_no,
                arg_hist_min = hist_min, arg_hist_max = hist_max,
                arg_mask = mask', arg_ratio = ratio\<rparr>"
  have cost: "\<exists>s. costFunc_args ext c ?args = Inr s" for c
  proof -
    obtain D' where "cost_recon ext c data theta slice_no mask' ratio = Inr D'"
      using recon [of "float32 ext c"]
      by (cases mask') (auto simp: cost_recon_def init_recon_def)
    moreover obtain counts where
      "histogram ext (gaussian_filter ext D' 2) 64 (hist_min, hist_max) = Inr counts"
      using hist_ok [OF le] by blast
    ultimately show ?thesis by (simp add: costFunc_args_def costFunc_def)
  qed
  obtain res calls where
    run: "run_minimizer (minimize ext center_init tol) (costFunc_args ext) ?args = Inr (res, calls)"
    using run_minimizer_total [of "costFunc_args ext" ?args, OF cost] by blast
  then have "optimize_center ext data theta slice_no center_init tol mask' ratio = Inr (res_x res)"
    using i h by (simp add: optimize_center_def optimize_center_run_def)
  with i h run show ?thesis by blast
qed

theorem optimize_center_accepts_any_tol_ratio_witness:
  "\<exists>data_recon hist_min hist_max res calls.
     init_recon drifting_ext () () () 5 True 2 = Inr data_recon \<and>
     hist_limits data_recon = Inr (hist_min, hist_max) \<and>
     run_minimizer (minimize drifting_ext 5 (- 1)) (costFunc_args drifting_ext)
       \<lparr>arg_data = (), arg_theta = (), arg_slice_no = (),
        arg_hist_min = hist_min, arg_hist_max = hist_max,
        arg_mask = True, arg_ratio = 2\<rparr> = Inr (res, calls) \<and>
     optimize_center drifting_ext () () () 5 (- 1) True 2 = Inr (res_x res)"
proof (rule optimize_center_accepts_any_tol_ratio)
  fix c :: real
  show "\<exists>img rest. reconstruct drifting_ext () () c () = Inr (img # rest) \<and>
      img \<noteq> [] \<and> length img = 2 * (shape2 drifting_ext () div 2) \<and>
      (\<forall>row\<in>set img. length row = length img)"
    by (simp add: drifting_ext_def drifting_recon_def)
next
  fix a :: recon_data and lo hi :: real
  assume "lo \<le> hi"
  then show "\<exists>counts. histogram drifting_ext a 64 (lo, hi) = Inr counts"
    by (simp add: drifting_ext_def in_range_histogram_def)
qed

text \<open>
  Claim C9 says that a result found with the budget exhausted comes tagged as not
  converged. The source returns \<open>res.x\<close> alone: the two runs below differ in the
  minimizer's \<open>success\<close> flag only, and the caller receives the same value 6 from both.
\<close>

theorem not_converged_indistinguishable_counterexample:
  "(\<exists>res calls. optimize_center_run (example_ext False) () () () 5 1 False 1 = Inr (res, calls) \<and>
      \<not> res_success res) \<and>
   (\<exists>res calls. optimize_center_run (example_ext True) () () () 5 1 False 1 = Inr (res, calls) \<and>
      res_success res) \<and>
   optimize_center (example_ext False) () () () 5 1 False 1 = Inr 6 \<and>
   optimize_center (example_ext True) () () () 5 1 False 1 = Inr 6"
  by (simp add: example_defs)

text \<open>
  Claim C9, as the source has it: when the run returns, the caller receives the final point
  \<open>res.x\<close> of the minimizer's result and nothing of its \<open>success\<close> flag.
\<close>

theorem optimize_center_returns_res_x:
  assumes "optimize_center_run ext data theta slice_no center_init tol mask' ratio = Inr (res, calls)"
  shows "optimize_center ext data theta slice_no center_init tol mask' ratio = Inr (res_x res)"
  using assms by (simp add: optimize_center_def)

theorem optimize_center_returns_res_x_witness:
  "\<exists>res calls. optimize_center_run (example_ext False) () () () 5 1 True 1 = Inr (res, calls) \<and>
     \<not> res_success res \<and>
     optimize_center (example_ext False) () () () 5 1 True 1 = Inr (res_x res)"
proof -
  obtain res calls where
    run: "optimize_center_run (example_ext False) () () () 5 1 True 1 = Inr (res, calls)"
    and s: "\<not> res_success res"
    using example_run [of False] by auto
  show ?thesis
    using optimize_center_returns_res_x [OF run] run s by blast
qed

text \<open>
  Claim C10. With the mask off, two values of \<open>ratio\<close> give the same observed run of
  \<open>optimize_center\<close> (the minimizer's result and every candidate with its score, or the
  same error), the same returned centre, and the same value of \<open>_costFunc\<close> for every
  candidate and histogram range.
\<close>

theorem ratio_ignored_without_mask:
  "observed (optimize_center_run ext data theta slice_no center_init tol False ratio1) =
   observed (optimize_center_run ext data theta slice_no center_init tol False ratio2) \<and>
   optimize_center ext data theta slice_no center_init tol False ratio1 =
   optimize_center ext data theta slice_no center_init tol False ratio2 \<and>
   costFunc ext center data theta slice_no hist_min hist_max False ratio1 =
   costFunc ext center data theta slice_no hist_min hist_max False ratio2"
proof -
  have i: "init_recon ext data theta slice_no center_init False ratio1 =
           init_recon ext data theta slice_no center_init False ratio2"
    by (simp add: init_recon_def cong: sum.case_cong)
  have o: "observed (optimize_center_run ext data theta slice_no center_init tol False ratio1) =
           observed (optimize_center_run ext data theta slice_no center_init tol False ratio2)"
  proof (cases "init_recon ext data theta slice_no center_init False ratio2")
    case (Inl e)
    then show ?thesis using i by (simp add: optimize_center_run_def)
  next
    case (Inr D)
    show ?thesis
    proof (cases "hist_limits D")
      case (Inl e)
      then show ?thesis using i Inr by (simp add: optimize_center_run_def)
    next
      case r: (Inr range)
      obtain lo hi where "range = (lo, hi)" by (cases range)
      then show ?thesis
        using i Inr r
        by (simp add: optimize_center_run_def)
           (rule run_minimizer_observed,
            simp add: costFunc_args_def costFunc_ratio_unmasked [of _ _ _ _ _ _ _ ratio1 ratio2])
    qed
  qed
  have "optimize_center ext data theta slice_no center_init tol False ratio1 =
        optimize_center ext data theta slice_no center_init tol False ratio2"
    using o by (auto simp: optimize_center_def observed_def split: sum.splits)
  with o show ?thesis
    by (simp add: costFunc_ratio_unmasked [of ext center data theta slice_no hist_min hist_max ratio1 ratio2])
qed

end
